theory Spec2Isabelle
  imports Main
begin

section \<open>The State Toggle action: data model\<close>

text \<open>
  The embedding follows \<^verbatim>\<open>src/__init__.py\<close>. Python integers are \<open>int\<close>, Python lists
  are HOL lists, every exception is a value of \<open>py_error\<close>, and every method that mutates
  its object takes the object and returns the updated one.
\<close>

datatype py_error = IndexError | ZeroDivisionError | ValueError | TypeError | HostError

text \<open>
  A key of a combination is the tuple \<^verbatim>\<open>(scan_code, is_extended)\<close> that
  \<^verbatim>\<open>_update_keys\<close> and \<^verbatim>\<open>_parse_xml\<close> store.
\<close>

type_synonym KeyIdentifier = "int \<times> bool"
type_synonym KeyCombination = "KeyIdentifier list"

text \<open>
  \<^verbatim>\<open>StateToggle.__init__\<close>: the attributes \<^verbatim>\<open>chain_states\<close> and \<^verbatim>\<open>num_states\<close>;
  \<^verbatim>\<open>MAX_STATES\<close> is set to the constant 10 and never written again.
\<close>

record StateToggle =
  chain_states :: "KeyCombination list"
  num_states :: int

definition MAX_STATES :: int where
  "MAX_STATES = 10"

definition StateToggle_init :: StateToggle where
  "StateToggle_init = \<lparr>chain_states = [], num_states = 0\<rparr>"

definition is_valid :: "StateToggle \<Rightarrow> bool" where
  "is_valid a = (length (chain_states a) > 0)"

text \<open>
  Python's \<^verbatim>\<open>xs[i]\<close> for an integer \<open>i\<close>: a negative index counts from the end, an
  index outside the list raises \<^verbatim>\<open>IndexError\<close>.
\<close>

definition py_index :: "'a list \<Rightarrow> int \<Rightarrow> py_error + 'a" where
  "py_index xs i =
     (if 0 \<le> i \<and> i < int (length xs) then Inr (xs ! nat i)
      else if i < 0 \<and> - int (length xs) \<le> i then Inr (xs ! nat (int (length xs) + i))
      else Inl IndexError)"

section \<open>Resizing the state list\<close>

text \<open>
  The two loops of \<^verbatim>\<open>StateToggleWidget._states_changed_cb\<close>. \<^verbatim>\<open>list.pop()\<close> removes
  the last element and raises \<^verbatim>\<open>IndexError\<close> on an empty list; the list at that moment
  is part of the error, since the object stays mutated after the exception.
\<close>

fun append_states :: "nat \<Rightarrow> KeyCombination list \<Rightarrow> KeyCombination list" where
  "append_states 0 cs = cs"
| "append_states (Suc n) cs = append_states n (cs @ [[]])"

fun pop_states :: "nat \<Rightarrow> KeyCombination list \<Rightarrow> py_error \<times> KeyCombination list + KeyCombination list" where
  "pop_states 0 cs = Inr cs"
| "pop_states (Suc n) cs = (if cs = [] then Inl (IndexError, cs) else pop_states n (butlast cs))"

text \<open>
  \<^verbatim>\<open>_states_changed_cb\<close>, as a function of the action data and of \<open>v\<close>, the value of
  \<^verbatim>\<open>int(value)\<close>. \<^verbatim>\<open>range(0, d)\<close> runs \<open>nat d\<close> times. The callback compares \<open>v\<close> with
  nothing but \<^verbatim>\<open>num_states\<close>; the signal \<^verbatim>\<open>action_modified\<close> is not modelled.
\<close>

definition states_changed_cb :: "StateToggle \<Rightarrow> int \<Rightarrow> py_error \<times> StateToggle + StateToggle" where
  "states_changed_cb action_data v =
     (if v > StateToggle.num_states action_data then
        Inr (action_data
              \<lparr>chain_states :=
                 append_states (nat (v - StateToggle.num_states action_data))
                   (chain_states action_data),
               StateToggle.num_states := v\<rparr>)
      else
        (case pop_states (nat (StateToggle.num_states action_data - v))
                (chain_states action_data) of
           Inl (e, cs) \<Rightarrow> Inl (e, action_data\<lparr>chain_states := cs\<rparr>)
         | Inr cs \<Rightarrow> Inr (action_data\<lparr>chain_states := cs, StateToggle.num_states := v\<rparr>)))"

section \<open>Persistence\<close>

subsection \<open>The built-ins \<^verbatim>\<open>str\<close> and \<^verbatim>\<open>int\<close>\<close>

text \<open>
  \<^verbatim>\<open>str\<close> of an integer is its decimal numeral with a leading minus sign for a negative
  number; \<^verbatim>\<open>str\<close> of a boolean is \<^verbatim>\<open>True\<close> or \<^verbatim>\<open>False\<close>.
\<close>

definition digit_char :: "nat \<Rightarrow> char" where
  "digit_char d = ''0123456789'' ! d"

fun dec_digits :: "nat \<Rightarrow> string" where
  "dec_digits n =
     (if n < 10 then [digit_char n] else dec_digits (n div 10) @ [digit_char (n mod 10)])"

declare dec_digits.simps [simp del]

definition py_str_int :: "int \<Rightarrow> string" where
  "py_str_int i = (if i < 0 then CHR ''-'' # dec_digits (nat (- i)) else dec_digits (nat i))"

definition py_str_bool :: "bool \<Rightarrow> string" where
  "py_str_bool b = (if b then ''True'' else ''False'')"

text \<open>
  \<^verbatim>\<open>int\<close> of a string: surrounding whitespace (the space and the characters 0x09 to
  0x0D, no other ASCII character) is dropped, one sign may come first, then decimal digits,
  where a single underscore may stand between two digits. Anything else raises \<^verbatim>\<open>ValueError\<close>, and \<^verbatim>\<open>int(None)\<close> raises \<^verbatim>\<open>TypeError\<close>. Strings are ASCII here:
  the digits and blanks of Unicode beyond ASCII that Python also accepts are not modelled,
  nor is the interpreter's configurable limit on the number of digits.
\<close>

definition is_space :: "char \<Rightarrow> bool" where
  "is_space c = (c \<in> set [CHR '' '', CHR 0x09, CHR 0x0A, CHR 0x0B, CHR 0x0C, CHR 0x0D])"

definition is_digit :: "char \<Rightarrow> bool" where
  "is_digit c = (c \<in> set ''0123456789'')"

definition digit_val :: "char \<Rightarrow> nat" where
  "digit_val c = of_char c - 48"

definition strip :: "string \<Rightarrow> string" where
  "strip s = rev (dropWhile is_space (rev (dropWhile is_space s)))"

fun parse_digits :: "nat \<Rightarrow> string \<Rightarrow> nat option" where
  "parse_digits acc [] = Some acc"
| "parse_digits acc (c # cs) =
     (if is_digit c then parse_digits (10 * acc + digit_val c) cs
      else if c = CHR ''_'' then
        (case cs of
           [] \<Rightarrow> None
         | d # _ \<Rightarrow> if is_digit d then parse_digits acc cs else None)
      else None)"

definition parse_unsigned :: "string \<Rightarrow> nat option" where
  "parse_unsigned s =
     (case s of [] \<Rightarrow> None | c # _ \<Rightarrow> if is_digit c then parse_digits 0 s else None)"

definition py_int :: "string option \<Rightarrow> py_error + int" where
  "py_int x =
     (case x of
        None \<Rightarrow> Inl TypeError
      | Some s \<Rightarrow>
          (case strip s of
             [] \<Rightarrow> Inl ValueError
           | c # r \<Rightarrow>
               if c = CHR ''-'' then
                 (case parse_unsigned r of None \<Rightarrow> Inl ValueError | Some n \<Rightarrow> Inr (- int n))
               else if c = CHR ''+'' then
                 (case parse_unsigned r of None \<Rightarrow> Inl ValueError | Some n \<Rightarrow> Inr (int n))
               else
                 (case parse_unsigned (c # r) of
                    None \<Rightarrow> Inl ValueError
                  | Some n \<Rightarrow> Inr (int n))))"

subsection \<open>Documents\<close>

text \<open>
  An \<^verbatim>\<open>ElementTree.Element\<close>: its tag, its attribute dictionary and its children in
  document order. \<^verbatim>\<open>findall\<close> with a plain tag name selects the direct children that
  carry this tag.
\<close>

datatype Element = Element (tag: string) (attrib: "string \<rightharpoonup> string") (children: "Element list")

definition findall :: "Element \<Rightarrow> string \<Rightarrow> Element list" where
  "findall node t = filter (\<lambda>c. tag c = t) (children node)"

definition set_attr :: "Element \<Rightarrow> string \<Rightarrow> string \<Rightarrow> Element" where
  "set_attr node k v = Element (tag node) ((attrib node)(k \<mapsto> v)) (children node)"

definition append_child :: "Element \<Rightarrow> Element \<Rightarrow> Element" where
  "append_child node c = Element (tag node) (attrib node) (children node @ [c])"

definition tag_StateToggle :: string where
  "tag_StateToggle = ''StateToggle''"

definition subtag :: string where
  "subtag = ''state''"

subsection \<open>\<^verbatim>\<open>_generate_xml\<close>\<close>

definition key_node :: "KeyIdentifier \<Rightarrow> Element" where
  "key_node key =
     set_attr (set_attr (Element ''key'' Map.empty []) ''scan-code'' (py_str_int (fst key)))
       ''extended'' (py_str_bool (snd key))"

fun generate_keys :: "Element \<Rightarrow> KeyCombination \<Rightarrow> Element" where
  "generate_keys state_node [] = state_node"
| "generate_keys state_node (key # keys) =
     generate_keys (append_child state_node (key_node key)) keys"

fun generate_states :: "Element \<Rightarrow> KeyCombination list \<Rightarrow> Element" where
  "generate_states node [] = node"
| "generate_states node (eachkey # rest) =
     generate_states
       (append_child node (generate_keys (Element subtag Map.empty []) eachkey)) rest"

definition generate_xml :: "StateToggle \<Rightarrow> Element" where
  "generate_xml self = generate_states (Element tag_StateToggle Map.empty []) (chain_states self)"

subsection \<open>\<^verbatim>\<open>_parse_xml\<close>\<close>

text \<open>
  The host's \<^verbatim>\<open>gremlin.profile.parse_bool\<close> is not part of this repository: it is the
  parameter \<open>pb\<close>, applied to the result of \<^verbatim>\<open>child.get("extended")\<close>, which is \<open>None\<close>
  for a missing attribute. An exception leaves the action with the states appended so far,
  which is part of the error.
\<close>

fun parse_keys ::
  "(string option \<Rightarrow> py_error + bool) \<Rightarrow> Element list \<Rightarrow> KeyCombination
    \<Rightarrow> py_error + KeyCombination" where
  "parse_keys pb [] keys = Inr keys"
| "parse_keys pb (child # rest) keys =
     (case py_int (attrib child ''scan-code'') of
        Inl e \<Rightarrow> Inl e
      | Inr sc \<Rightarrow>
          (case pb (attrib child ''extended'') of
             Inl e \<Rightarrow> Inl e
           | Inr ext \<Rightarrow> parse_keys pb rest (keys @ [(sc, ext)])))"

fun parse_states ::
  "(string option \<Rightarrow> py_error + bool) \<Rightarrow> StateToggle \<Rightarrow> Element list
    \<Rightarrow> py_error \<times> StateToggle + StateToggle" where
  "parse_states pb self [] = Inr self"
| "parse_states pb self (state # rest) =
     (case parse_keys pb (findall state ''key'') [] of
        Inl e \<Rightarrow> Inl (e, self)
      | Inr keys \<Rightarrow>
          parse_states pb
            (self\<lparr>chain_states := chain_states self @ [keys],
                  StateToggle.num_states := StateToggle.num_states self + 1\<rparr>) rest)"

definition parse_xml ::
  "(string option \<Rightarrow> py_error + bool) \<Rightarrow> StateToggle \<Rightarrow> Element
    \<Rightarrow> py_error \<times> StateToggle + StateToggle" where
  "parse_xml pb self node = parse_states pb self (findall node subtag)"

text \<open>
  A document is well formed for \<open>pb\<close> when every key element of every state element
  carries a \<^verbatim>\<open>scan-code\<close> that \<^verbatim>\<open>int\<close> accepts and an \<^verbatim>\<open>extended\<close> that \<open>pb\<close> accepts;
  \<open>decode_state\<close> is the key combination such a state element stands for.
\<close>

definition key_ok :: "(string option \<Rightarrow> py_error + bool) \<Rightarrow> Element \<Rightarrow> bool" where
  "key_ok pb child =
     (\<not> isl (py_int (attrib child ''scan-code'')) \<and> \<not> isl (pb (attrib child ''extended'')))"

definition well_formed :: "(string option \<Rightarrow> py_error + bool) \<Rightarrow> Element \<Rightarrow> bool" where
  "well_formed pb node =
     list_all (\<lambda>state. list_all (key_ok pb) (findall state ''key'')) (findall node subtag)"

definition decode_key :: "(string option \<Rightarrow> py_error + bool) \<Rightarrow> Element \<Rightarrow> KeyIdentifier" where
  "decode_key pb child =
     (projr (py_int (attrib child ''scan-code'')), projr (pb (attrib child ''extended'')))"

definition decode_state :: "(string option \<Rightarrow> py_error + bool) \<Rightarrow> Element \<Rightarrow> KeyCombination" where
  "decode_state pb state = map (decode_key pb) (findall state ''key'')"

section \<open>The runtime engine\<close>

text \<open>
  A macro of the host (\<^verbatim>\<open>gremlin.macro.Macro\<close>) is the sequence of actions added to it
  by \<^verbatim>\<open>press\<close> and \<^verbatim>\<open>release\<close>. The host's \<^verbatim>\<open>key_from_code\<close> is not part of this
  repository: it is the parameter \<open>kfc\<close>, which may fail.
\<close>

datatype 'k MacroAction = Press 'k | Release 'k

type_synonym 'k Macro = "'k MacroAction list"

record 'k StateToggleFunctor =
  press :: "'k Macro list"
  needs_auto_release :: "bool list"
  release :: "'k Macro list"
  num_states :: int
  current_toggle :: int

text \<open>
  The two inner loops of \<^verbatim>\<open>StateToggleFunctor.__init__\<close>: one macro action per key of
  the combination, in the combination's order.
\<close>

fun build_macro ::
  "(int \<Rightarrow> bool \<Rightarrow> py_error + 'k) \<Rightarrow> ('k \<Rightarrow> 'k MacroAction) \<Rightarrow> KeyCombination
    \<Rightarrow> 'k Macro \<Rightarrow> py_error + 'k Macro" where
  "build_macro kfc act [] m = Inr m"
| "build_macro kfc act (key # keys) m =
     (case kfc (fst key) (snd key) of
        Inl e \<Rightarrow> Inl e
      | Inr k \<Rightarrow> build_macro kfc act keys (m @ [act k]))"

text \<open>The body of the outer loop, for the index \<open>i\<close>.\<close>

definition init_state ::
  "(int \<Rightarrow> bool \<Rightarrow> py_error + 'k) \<Rightarrow> StateToggle \<Rightarrow> 'k StateToggleFunctor \<Rightarrow> int
    \<Rightarrow> py_error + 'k StateToggleFunctor" where
  "init_state kfc action self i =
     (case py_index (chain_states action) i of
        Inl e \<Rightarrow> Inl e
      | Inr keys \<Rightarrow>
          (case build_macro kfc Press keys [] of
             Inl e \<Rightarrow> Inl e
           | Inr p \<Rightarrow>
               (case build_macro kfc Release keys [] of
                  Inl e \<Rightarrow> Inl e
                | Inr r \<Rightarrow>
                    Inr (self\<lparr>press := press self @ [p],
                              needs_auto_release := needs_auto_release self @ [True],
                              release := release self @ [r]\<rparr>))))"

fun init_loop ::
  "(int \<Rightarrow> bool \<Rightarrow> py_error + 'k) \<Rightarrow> StateToggle \<Rightarrow> 'k StateToggleFunctor \<Rightarrow> int list
    \<Rightarrow> py_error + 'k StateToggleFunctor" where
  "init_loop kfc action self [] = Inr self"
| "init_loop kfc action self (i # idxs) =
     (case init_state kfc action self i of
        Inl e \<Rightarrow> Inl e
      | Inr self' \<Rightarrow> init_loop kfc action self' idxs)"

text \<open>
  \<^verbatim>\<open>StateToggleFunctor.__init__\<close>. \<^verbatim>\<open>range(0, n)\<close> is the list \<open>[0..n - 1]\<close>, empty for
  \<open>n \<le> 0\<close>. There is no test of \<^verbatim>\<open>action.num_states\<close> before the loop.
\<close>

definition StateToggleFunctor_init ::
  "(int \<Rightarrow> bool \<Rightarrow> py_error + 'k) \<Rightarrow> StateToggle \<Rightarrow> py_error + 'k StateToggleFunctor" where
  "StateToggleFunctor_init kfc action =
     init_loop kfc action
       \<lparr>press = [], needs_auto_release = [], release = [],
        num_states = StateToggle.num_states action, current_toggle = 0\<rparr>
       [0..StateToggle.num_states action - 1]"

text \<open>
  The world outside the engine: the macros handed to \<^verbatim>\<open>MacroManager().queue_macro\<close>, in
  the order of the calls, and the events for which a callback was registered with
  \<^verbatim>\<open>ButtonReleaseActions().register_callback\<close>. Every registered callback is the same
  closure over the engine, so the event identifies the registration. Both host calls are
  taken not to raise.
\<close>

record ('k, 'e) host =
  queue :: "'k Macro list"
  callbacks :: "'e list"

record input_value =
  current :: bool

text \<open>
  \<^verbatim>\<open>process_event\<close>. On success the result is the updated engine and host and the
  returned flag. A failing list index or a modulo by zero is the error of the call.
\<close>

definition process_event ::
  "'k StateToggleFunctor \<times> ('k, 'e) host \<Rightarrow> 'e \<Rightarrow> input_value
    \<Rightarrow> py_error + ('k StateToggleFunctor \<times> ('k, 'e) host) \<times> bool" where
  "process_event sw event val =
     (let self = fst sw; w = snd sw in
      if current val then
        (case py_index (press self) (current_toggle self) of
           Inl e \<Rightarrow> Inl e
         | Inr p \<Rightarrow>
             (let w1 = w\<lparr>queue := queue w @ [p]\<rparr> in
              case py_index (needs_auto_release self) (current_toggle self) of
                Inl e \<Rightarrow> Inl e
              | Inr nar \<Rightarrow>
                  Inr ((self, if nar then w1\<lparr>callbacks := callbacks w1 @ [event]\<rparr> else w1),
                       True)))
      else
        (case py_index (release self) (current_toggle self) of
           Inl e \<Rightarrow> Inl e
         | Inr r \<Rightarrow>
             (let w1 = w\<lparr>queue := queue w @ [r]\<rparr> in
              if num_states self = 0 then Inl ZeroDivisionError
              else
                Inr ((self\<lparr>current_toggle := (current_toggle self + 1) mod num_states self\<rparr>,
                      w1), True))))"

text \<open>
  The callback registered on activation: when the host fires it, it reads the cursor at
  that moment and queues that state's release macro.
\<close>

definition release_callback ::
  "'k StateToggleFunctor \<Rightarrow> ('k, 'e) host \<Rightarrow> py_error + ('k, 'e) host" where
  "release_callback self w =
     (case py_index (release self) (current_toggle self) of
        Inl e \<Rightarrow> Inl e
      | Inr r \<Rightarrow> Inr (w\<lparr>queue := queue w @ [r]\<rparr>))"

text \<open>A sequence of \<^verbatim>\<open>process_event\<close> calls; the first exception ends it.\<close>

fun process_events ::
  "'k StateToggleFunctor \<times> ('k, 'e) host \<Rightarrow> ('e \<times> input_value) list
    \<Rightarrow> py_error + 'k StateToggleFunctor \<times> ('k, 'e) host" where
  "process_events sw [] = Inr sw"
| "process_events sw (ev # evs) =
     (case process_event sw (fst ev) (snd ev) of
        Inl e \<Rightarrow> Inl e
      | Inr res \<Rightarrow> process_events (fst res) evs)"

section \<open>Predicates used to state the properties\<close>

text \<open>
  The engine as the constructor leaves it and as \<^verbatim>\<open>process_event\<close> keeps it: one macro
  pair and one flag per state, every flag set, the cursor inside \<open>[0, num_states)\<close>.
\<close>

definition engine_ok :: "'k StateToggleFunctor \<Rightarrow> bool" where
  "engine_ok self =
     (length (press self) = nat (num_states self) \<and>
      length (needs_auto_release self) = nat (num_states self) \<and>
      length (release self) = nat (num_states self) \<and>
      list_all (\<lambda>b. b) (needs_auto_release self) \<and>
      0 \<le> current_toggle self \<and> current_toggle self < num_states self)"

text \<open>
  The values of \<^verbatim>\<open>value.current\<close> alternate, the first one being \<open>b\<close>.
\<close>

fun alternating :: "bool \<Rightarrow> bool list \<Rightarrow> bool" where
  "alternating b [] = True"
| "alternating b (v # vs) = (v = b \<and> alternating (\<not> b) vs)"

text \<open>The state element that \<^verbatim>\<open>_generate_xml\<close> builds for one key combination.\<close>

definition state_node :: "KeyCombination \<Rightarrow> Element" where
  "state_node keys = Element subtag Map.empty (map key_node keys)"

text \<open>
  Modelled from the spec: \<^verbatim>\<open>gremlin.profile.parse_bool\<close> belongs to the host and is not
  in the source of this action. The spec (4.2) has \<^verbatim>\<open>extended\<close> written as the text
  \<^verbatim>\<open>True\<close> or \<^verbatim>\<open>False\<close>, understood by the shared boolean parser. This instance of the
  parameter \<open>pb\<close> accepts these two texts and nothing else; it serves where a concrete
  parser is needed.
\<close>

definition parse_bool_text :: "string option \<Rightarrow> py_error + bool" where
  "parse_bool_text x =
     (if x = Some ''True'' then Inr True
      else if x = Some ''False'' then Inr False
      else Inl HostError)"

section \<open>The engine keeps its invariant\<close>

lemma py_index_in_range:
  "0 \<le> i \<Longrightarrow> i < int (length xs) \<Longrightarrow> py_index xs i = Inr (xs ! nat i)"
  by (simp add: py_index_def)

lemma py_index_Nil: "py_index [] i = Inl IndexError"
  by (simp add: py_index_def)

lemma init_state_fields:
  assumes "init_state kfc action self i = Inr self'"
  shows "length (press self') = Suc (length (press self))"
    and "length (needs_auto_release self') = Suc (length (needs_auto_release self))"
    and "length (release self') = Suc (length (release self))"
    and "needs_auto_release self' = needs_auto_release self @ [True]"
    and "num_states self' = num_states self"
    and "current_toggle self' = current_toggle self"
  using assms by (auto simp: init_state_def split: sum.splits)

lemma init_loop_fields:
  "init_loop kfc action self idxs = Inr self' \<Longrightarrow>
     length (press self') = length (press self) + length idxs \<and>
     length (needs_auto_release self') = length (needs_auto_release self) + length idxs \<and>
     length (release self') = length (release self) + length idxs \<and>
     (list_all (\<lambda>b. b) (needs_auto_release self) \<longrightarrow> list_all (\<lambda>b. b) (needs_auto_release self')) \<and>
     num_states self' = num_states self \<and>
     current_toggle self' = current_toggle self"
proof (induction idxs arbitrary: self)
  case Nil
  then show ?case by simp
next
  case (Cons i idxs)
  from Cons.prems obtain s1 where s1: "init_state kfc action self i = Inr s1"
    and rest: "init_loop kfc action s1 idxs = Inr self'"
    by (auto split: sum.splits)
  from Cons.IH [OF rest] init_state_fields [OF s1] show ?case by simp
qed

lemma init_fields:
  assumes "StateToggleFunctor_init kfc action = Inr self"
  shows "length (press self) = nat (StateToggle.num_states action)"
    and "length (needs_auto_release self) = nat (StateToggle.num_states action)"
    and "length (release self) = nat (StateToggle.num_states action)"
    and "list_all (\<lambda>b. b) (needs_auto_release self)"
    and "num_states self = StateToggle.num_states action"
    and "current_toggle self = 0"
  using init_loop_fields [OF assms [unfolded StateToggleFunctor_init_def]] by simp_all

lemma init_engine_ok:
  "StateToggleFunctor_init kfc action = Inr self \<Longrightarrow> 1 \<le> num_states self \<Longrightarrow> engine_ok self"
  using init_fields [of kfc action self] by (simp add: engine_ok_def)

lemma process_event_activate:
  assumes "engine_ok self" "current val"
  shows "process_event (self, w) event val =
           Inr ((self, w\<lparr>queue := queue w @ [press self ! nat (current_toggle self)],
                         callbacks := callbacks w @ [event]\<rparr>), True)"
proof -
  from assms(1) have i: "0 \<le> current_toggle self"
    "current_toggle self < int (length (press self))"
    "current_toggle self < int (length (needs_auto_release self))"
    and t: "list_all (\<lambda>b. b) (needs_auto_release self)"
    by (simp_all add: engine_ok_def)
  from t i have "needs_auto_release self ! nat (current_toggle self)"
    by (simp add: list_all_length)
  with i assms(2) show ?thesis
    by (simp add: process_event_def py_index_in_range)
qed

lemma process_event_deactivate:
  assumes "engine_ok self" "\<not> current val"
  shows "process_event (self, w) event val =
           Inr ((self\<lparr>current_toggle := (current_toggle self + 1) mod num_states self\<rparr>,
                 w\<lparr>queue := queue w @ [release self ! nat (current_toggle self)]\<rparr>), True)"
proof -
  from assms(1) have i: "0 \<le> current_toggle self"
    "current_toggle self < int (length (release self))" "num_states self \<noteq> 0"
    by (auto simp: engine_ok_def)
  with assms(2) show ?thesis
    by (simp add: process_event_def py_index_in_range)
qed

lemma process_event_ok:
  assumes "engine_ok self"
  shows "\<exists>self' w'. process_event (self, w) event val = Inr ((self', w'), True) \<and>
           engine_ok self' \<and> num_states self' = num_states self \<and>
           press self' = press self \<and> release self' = release self"
proof (cases "current val")
  case True
  with assms show ?thesis by (simp add: process_event_activate)
next
  case False
  from assms have "0 < num_states self" by (simp add: engine_ok_def)
  with assms False show ?thesis
    by (simp add: process_event_deactivate engine_ok_def)
qed

lemma process_events_ok:
  "engine_ok self \<Longrightarrow>
     \<exists>self' w'. process_events (self, w) evs = Inr (self', w') \<and>
       engine_ok self' \<and> num_states self' = num_states self \<and>
       press self' = press self \<and> release self' = release self"
proof (induction evs arbitrary: self w)
  case Nil
  then show ?case by simp
next
  case (Cons ev evs)
  from process_event_ok [OF Cons.prems, of w "fst ev" "snd ev"]
  obtain s1 w1 where st: "process_event (self, w) (fst ev) (snd ev) = Inr ((s1, w1), True)"
    and ok: "engine_ok s1" and same: "num_states s1 = num_states self"
      "press s1 = press self" "release s1 = release self"
    by blast
  from Cons.IH [OF ok, of w1] same st show ?case by simp
qed

lemma process_events_cycle:
  "engine_ok self \<Longrightarrow> length evs = 2 * k \<Longrightarrow>
   alternating True (map (\<lambda>ev. current (snd ev)) evs) \<Longrightarrow>
     \<exists>self' w'. process_events (self, w) evs = Inr (self', w') \<and>
       current_toggle self' = (current_toggle self + int k) mod num_states self"
proof (induction k arbitrary: self w evs)
  case 0
  then show ?case by (simp add: engine_ok_def)
next
  case (Suc k)
  from Suc.prems(2) obtain a d rest where evs: "evs = a # d # rest"
    by (cases evs rule: list.exhaust; cases "tl evs") auto
  with Suc.prems have act: "current (snd a)" and deact: "\<not> current (snd d)"
    and len: "length rest = 2 * k"
    and alt: "alternating True (map (\<lambda>ev. current (snd ev)) rest)"
    by simp_all
  define s1 where "s1 = self\<lparr>current_toggle := (current_toggle self + 1) mod num_states self\<rparr>"
  define w1 where "w1 = w\<lparr>queue := queue w @ [press self ! nat (current_toggle self)],
          callbacks := callbacks w @ [fst a]\<rparr>"
  define w2 where "w2 = w1\<lparr>queue := queue w1 @ [release self ! nat (current_toggle self)]\<rparr>"
  from Suc.prems(1) have pos: "0 < num_states self" by (simp add: engine_ok_def)
  with Suc.prems(1) have ok1: "engine_ok s1" by (simp add: engine_ok_def s1_def)
  have step: "process_events (self, w) evs = process_events (s1, w2) rest"
    using Suc.prems(1) act deact
    by (simp add: evs process_event_activate process_event_deactivate s1_def w1_def w2_def)
  from Suc.IH [OF ok1 len alt, of w2]
  obtain self' w' where run: "process_events (s1, w2) rest = Inr (self', w')"
    and ct: "current_toggle self' = (current_toggle s1 + int k) mod num_states s1"
    by blast
  have "((current_toggle self + 1) mod num_states self + int k) mod num_states self
      = (current_toggle self + int (Suc k)) mod num_states self"
    by (simp add: mod_simps algebra_simps)
  with run step ct show ?case by (simp add: s1_def)
qed

section \<open>Resizing, in closed form\<close>

lemma append_states_eq: "append_states n cs = cs @ replicate n []"
  by (induction n arbitrary: cs) (simp_all add: replicate_app_Cons_same)

lemma pop_states_eq:
  "pop_states n cs =
     (if n \<le> length cs then Inr (take (length cs - n) cs) else Inl (IndexError, []))"
proof (induction n arbitrary: cs)
  case 0
  then show ?case by simp
next
  case (Suc n)
  show ?case
  proof (cases "cs = []")
    case True
    then show ?thesis by simp
  next
    case False
    then have len: "length cs = Suc (length (butlast cs))" by simp
    have tk: "take (length (butlast cs) - n) (butlast cs) = take (length cs - Suc n) cs"
      by (simp add: butlast_conv_take min_def)
    have "pop_states (Suc n) cs = pop_states n (butlast cs)" using False by simp
    also have "\<dots> = (if n \<le> length (butlast cs)
        then Inr (take (length (butlast cs) - n) (butlast cs)) else Inl (IndexError, []))"
      by (rule Suc.IH)
    also have "\<dots> = (if Suc n \<le> length cs
        then Inr (take (length cs - Suc n) cs) else Inl (IndexError, []))"
      unfolding tk using len by simp
    finally show ?thesis .
  qed
qed

lemma states_changed_cb_nonneg:
  assumes "StateToggle.num_states a = int (length (chain_states a))" "0 \<le> v"
  shows "states_changed_cb a v =
     Inr \<lparr>chain_states = take (nat v) (chain_states a) @ replicate (nat v - length (chain_states a)) [],
          StateToggle.num_states = v\<rparr>"
proof (cases "v > StateToggle.num_states a")
  case True
  with assms have "nat (v - StateToggle.num_states a) = nat v - length (chain_states a)"
    and "length (chain_states a) \<le> nat v" by simp_all
  with True show ?thesis
    by (simp add: states_changed_cb_def append_states_eq)
next
  case False
  with assms have "nat (StateToggle.num_states a - v) \<le> length (chain_states a)"
    and "length (chain_states a) - nat (StateToggle.num_states a - v) = nat v"
    and "nat v - length (chain_states a) = 0"
    by simp_all
  with False show ?thesis
    by (simp add: states_changed_cb_def pop_states_eq)
qed

lemma states_changed_cb_neg:
  assumes "StateToggle.num_states a = int (length (chain_states a))" "v < 0"
  shows "states_changed_cb a v = Inl (IndexError, a\<lparr>chain_states := []\<rparr>)"
proof -
  from assms have "\<not> v > StateToggle.num_states a"
    and "\<not> nat (StateToggle.num_states a - v) \<le> length (chain_states a)" by simp_all
  then show ?thesis by (simp add: states_changed_cb_def pop_states_eq)
qed

section \<open>Writing and reading integers\<close>

lemma digit_cases: "d < 10 \<Longrightarrow> d \<in> {0, 1, 2, 3, 4, 5, 6, 7, 8, 9::nat}"
  by auto

lemma digit_char_props:
  assumes "d < 10"
  shows "is_digit (digit_char d)" and "digit_val (digit_char d) = d"
    and "\<not> is_space (digit_char d)" and "digit_char d \<noteq> CHR ''-''"
    and "digit_char d \<noteq> CHR ''+''"
  using digit_cases [OF assms]
  by (auto simp: digit_char_def is_digit_def digit_val_def is_space_def)

lemma dec_digits_digits: "list_all is_digit (dec_digits n)"
proof (induction n rule: dec_digits.induct)
  case (1 n)
  show ?case
  proof (cases "n < 10")
    case True
    then show ?thesis by (simp add: dec_digits.simps [of n] digit_char_props)
  next
    case False
    with 1 show ?thesis by (simp add: dec_digits.simps [of n] digit_char_props)
  qed
qed

lemma dec_digits_not_Nil: "dec_digits n \<noteq> []"
  by (simp add: dec_digits.simps [of n])

lemma parse_digits_all_digits:
  "list_all is_digit ds \<Longrightarrow>
     parse_digits acc ds = Some (foldl (\<lambda>a c. 10 * a + digit_val c) acc ds)"
  by (induction ds arbitrary: acc) simp_all

lemma foldl_dec_digits: "foldl (\<lambda>a c. 10 * a + digit_val c) 0 (dec_digits n) = n"
proof (induction n rule: dec_digits.induct)
  case (1 n)
  show ?case
  proof (cases "n < 10")
    case True
    then show ?thesis by (simp add: dec_digits.simps [of n] digit_char_props)
  next
    case False
    with 1 show ?thesis by (simp add: dec_digits.simps [of n] digit_char_props)
  qed
qed

lemma parse_unsigned_dec_digits: "parse_unsigned (dec_digits n) = Some n"
proof -
  obtain c cs where ds: "dec_digits n = c # cs"
    using dec_digits_not_Nil [of n] by (cases "dec_digits n") auto
  with dec_digits_digits [of n] have "is_digit c" by simp
  with ds have "parse_unsigned (dec_digits n) = parse_digits 0 (dec_digits n)"
    by (simp add: parse_unsigned_def)
  then show ?thesis
    by (simp add: parse_digits_all_digits dec_digits_digits foldl_dec_digits)
qed

lemma is_digit_plain:
  "is_digit c \<Longrightarrow> \<not> is_space c \<and> c \<noteq> CHR ''-'' \<and> c \<noteq> CHR ''+''"
  by (auto simp: is_digit_def is_space_def)

lemma strip_unchanged:
  assumes "s \<noteq> []" "\<not> is_space (hd s)" "\<not> is_space (last s)"
  shows "strip s = s"
proof -
  from assms have "dropWhile is_space s = s" by (cases s) auto
  moreover from assms have "dropWhile is_space (rev s) = rev s"
    by (cases "rev s") (auto simp: hd_rev)
  ultimately show ?thesis by (simp add: strip_def)
qed

lemma dec_digits_ends:
  "\<not> is_space (hd (dec_digits n))" "\<not> is_space (last (dec_digits n))"
  "hd (dec_digits n) \<noteq> CHR ''-''" "hd (dec_digits n) \<noteq> CHR ''+''"
proof -
  have all: "list_all is_digit (dec_digits n)" and ne: "dec_digits n \<noteq> []"
    by (rule dec_digits_digits, rule dec_digits_not_Nil)
  from all ne have "is_digit (hd (dec_digits n))" "is_digit (last (dec_digits n))"
    by (auto simp: list_all_iff)
  then show "\<not> is_space (hd (dec_digits n))" "\<not> is_space (last (dec_digits n))"
    "hd (dec_digits n) \<noteq> CHR ''-''" "hd (dec_digits n) \<noteq> CHR ''+''"
    using is_digit_plain by blast+
qed

lemma py_int_py_str_int: "py_int (Some (py_str_int i)) = Inr i"
proof (cases "i < 0")
  case True
  have ne: "dec_digits (nat (- i)) \<noteq> []" by (rule dec_digits_not_Nil)
  have "strip (CHR ''-'' # dec_digits (nat (- i))) = CHR ''-'' # dec_digits (nat (- i))"
    using ne dec_digits_ends(2) [of "nat (- i)"]
    by (intro strip_unchanged) (simp_all add: is_space_def)
  with True show ?thesis
    by (simp add: py_int_def py_str_int_def parse_unsigned_dec_digits)
next
  case False
  obtain c r where ds: "dec_digits (nat i) = c # r"
    using dec_digits_not_Nil [of "nat i"] by (cases "dec_digits (nat i)") auto
  have st: "strip (dec_digits (nat i)) = dec_digits (nat i)"
    using dec_digits_not_Nil dec_digits_ends(1,2) by (intro strip_unchanged)
  from dec_digits_ends(3,4) [of "nat i"] ds have c: "c \<noteq> CHR ''-''" "c \<noteq> CHR ''+''"
    by simp_all
  have "parse_unsigned (c # r) = Some (nat i)"
    using parse_unsigned_dec_digits [of "nat i"] ds by simp
  with False st ds c show ?thesis
    by (simp add: py_int_def py_str_int_def)
qed

text \<open>
  The separators 0x1C to 0x1F are not among the blanks that \<^verbatim>\<open>int\<close> drops: a scan code
  written with one of them in front is refused, while blanks around the digits are dropped.
\<close>

lemma py_int_separator_refused: "py_int (Some (CHR 0x1F # ''42'')) = Inl ValueError"
  by (simp add: py_int_def strip_def is_space_def parse_unsigned_def is_digit_def)

lemma py_int_blanks_dropped: "py_int (Some (CHR 0x09 # '' 42 '' @ [CHR 0x0A])) = Inr 42"
  by (simp add: py_int_def strip_def is_space_def parse_unsigned_def is_digit_def digit_val_def)

section \<open>Generated documents and their parse\<close>

lemma generate_keys_eq:
  "generate_keys sn keys = Element (tag sn) (attrib sn) (children sn @ map key_node keys)"
  by (induction keys arbitrary: sn) (simp_all add: append_child_def)

lemma generate_states_eq:
  "generate_states node css =
     Element (tag node) (attrib node) (children node @ map state_node css)"
  by (induction css arbitrary: node)
    (simp_all add: append_child_def generate_keys_eq state_node_def)

lemma generate_xml_eq:
  "generate_xml self = Element tag_StateToggle Map.empty (map state_node (chain_states self))"
  by (simp add: generate_xml_def generate_states_eq)

lemma key_node_fields:
  "tag (key_node key) = ''key''"
  "attrib (key_node key) ''scan-code'' = Some (py_str_int (fst key))"
  "attrib (key_node key) ''extended'' = Some (py_str_bool (snd key))"
  by (simp_all add: key_node_def set_attr_def)

lemma findall_key_nodes: "findall (state_node keys) ''key'' = map key_node keys"
  by (simp add: findall_def state_node_def key_node_fields filter_id_conv)

lemma findall_state_nodes:
  "findall (Element t at (map state_node css)) subtag = map state_node css"
  by (simp add: findall_def state_node_def filter_id_conv)

lemma parse_keys_key_nodes:
  assumes "pb (Some ''True'') = Inr True" "pb (Some ''False'') = Inr False"
  shows "parse_keys pb (map key_node ks) acc = Inr (acc @ ks)"
proof (induction ks arbitrary: acc)
  case Nil
  then show ?case by simp
next
  case (Cons k ks)
  have "pb (Some (py_str_bool (snd k))) = Inr (snd k)"
    using assms by (simp add: py_str_bool_def)
  with Cons.IH show ?case
    by (simp add: key_node_fields py_int_py_str_int)
qed

lemma parse_states_state_nodes:
  assumes "pb (Some ''True'') = Inr True" "pb (Some ''False'') = Inr False"
  shows "parse_states pb self (map state_node css) =
     Inr (self\<lparr>chain_states := chain_states self @ css,
               StateToggle.num_states := StateToggle.num_states self + int (length css)\<rparr>)"
proof (induction css arbitrary: self)
  case Nil
  then show ?case by simp
next
  case (Cons ks css)
  show ?case
    by (simp add: findall_key_nodes parse_keys_key_nodes [OF assms] Cons.IH)
qed

lemma parse_keys_ok:
  "list_all (key_ok pb) cs \<Longrightarrow> parse_keys pb cs acc = Inr (acc @ map (decode_key pb) cs)"
proof (induction cs arbitrary: acc)
  case Nil
  then show ?case by simp
next
  case (Cons c cs)
  from Cons.prems obtain sc ext where "py_int (attrib c ''scan-code'') = Inr sc"
    "pb (attrib c ''extended'') = Inr ext"
    by (cases "py_int (attrib c ''scan-code'')"; cases "pb (attrib c ''extended'')")
       (auto simp: key_ok_def)
  with Cons show ?case by (simp add: decode_key_def)
qed

lemma parse_states_ok:
  "list_all (\<lambda>state. list_all (key_ok pb) (findall state ''key'')) sts \<Longrightarrow>
     parse_states pb self sts =
       Inr (self\<lparr>chain_states := chain_states self @ map (decode_state pb) sts,
                 StateToggle.num_states := StateToggle.num_states self + int (length sts)\<rparr>)"
proof (induction sts arbitrary: self)
  case Nil
  then show ?case by simp
next
  case (Cons st sts)
  then show ?case by (simp add: parse_keys_ok decode_state_def)
qed

lemma parse_states_keeps:
  "(case parse_states pb self sts of
      Inl (e, self') \<Rightarrow> \<exists>ys. chain_states self' = chain_states self @ ys
    | Inr self' \<Rightarrow>
        (\<exists>ys. chain_states self' = chain_states self @ ys \<and> length ys = length sts) \<and>
        StateToggle.num_states self' = StateToggle.num_states self + int (length sts))"
proof (induction sts arbitrary: self)
  case Nil
  then show ?case by simp
next
  case (Cons st sts)
  show ?case
  proof (cases "parse_keys pb (findall st ''key'') []")
    case (Inl e)
    then show ?thesis by simp
  next
    case (Inr keys)
    let ?s1 = "self\<lparr>chain_states := chain_states self @ [keys],
                  StateToggle.num_states := StateToggle.num_states self + 1\<rparr>"
    from Cons.IH [of ?s1] Inr show ?thesis
      by (cases "parse_states pb ?s1 sts") (auto)
  qed
qed

section \<open>The claims\<close>

subsection \<open>Sample data\<close>

lemma sample_engine:
  "StateToggleFunctor_init (curry Inr)
     \<lparr>chain_states = [[(30, False)], [(42, False), (44, False)]], StateToggle.num_states = 2\<rparr> =
   Inr \<lparr>press = [[Press (30, False)], [Press (42, False), Press (44, False)]],
        needs_auto_release = [True, True],
        release = [[Release (30, False)], [Release (42, False), Release (44, False)]],
        num_states = 2, current_toggle = 0\<rparr>"
  by (simp add: StateToggleFunctor_init_def init_state_def py_index_def upto.simps)

lemma one_state_engine:
  "StateToggleFunctor_init (curry Inr)
     \<lparr>chain_states = [[(30, False)]], StateToggle.num_states = 1\<rparr> =
   Inr \<lparr>press = [[Press (30, False)]], needs_auto_release = [True],
        release = [[Release (30, False)]], num_states = 1, current_toggle = 0\<rparr>"
  by (simp add: StateToggleFunctor_init_def init_state_def py_index_def)

lemma eleven_states:
  "findall (Element ''StateToggle'' Map.empty
      (Element ''state'' Map.empty
         [Element ''key'' [''scan-code'' \<mapsto> ''42'', ''extended'' \<mapsto> ''False''] [],
          Element ''key'' [''scan-code'' \<mapsto> ''30'', ''extended'' \<mapsto> ''True''] []] #
       replicate 9 (Element ''state'' Map.empty
         [Element ''key'' [''scan-code'' \<mapsto> ''7'', ''extended'' \<mapsto> ''True''] []]) @
       [Element ''state'' Map.empty []])) subtag =
     Element ''state'' Map.empty
         [Element ''key'' [''scan-code'' \<mapsto> ''42'', ''extended'' \<mapsto> ''False''] [],
          Element ''key'' [''scan-code'' \<mapsto> ''30'', ''extended'' \<mapsto> ''True''] []] #
       replicate 9 (Element ''state'' Map.empty
         [Element ''key'' [''scan-code'' \<mapsto> ''7'', ''extended'' \<mapsto> ''True''] []]) @
       [Element ''state'' Map.empty []]"
  by (simp add: findall_def subtag_def)

lemma sample_keys:
  "py_int (Some ''42'') = Inr 42" "py_int (Some ''30'') = Inr 30" "py_int (Some ''7'') = Inr 7"
  "parse_bool_text (Some ''True'') = Inr True" "parse_bool_text (Some ''False'') = Inr False"
  by (simp_all add: py_int_def strip_def is_space_def parse_unsigned_def is_digit_def
      digit_val_def parse_bool_text_def)

lemma sample_states:
  "findall (Element ''state'' Map.empty
         [Element ''key'' [''scan-code'' \<mapsto> ''42'', ''extended'' \<mapsto> ''False''] [],
          Element ''key'' [''scan-code'' \<mapsto> ''30'', ''extended'' \<mapsto> ''True''] []]) ''key'' =
     [Element ''key'' [''scan-code'' \<mapsto> ''42'', ''extended'' \<mapsto> ''False''] [],
      Element ''key'' [''scan-code'' \<mapsto> ''30'', ''extended'' \<mapsto> ''True''] []]"
  "findall (Element ''state'' Map.empty
         [Element ''key'' [''scan-code'' \<mapsto> ''7'', ''extended'' \<mapsto> ''True''] []]) ''key'' =
     [Element ''key'' [''scan-code'' \<mapsto> ''7'', ''extended'' \<mapsto> ''True''] []]"
  "findall (Element ''state'' Map.empty []) ''key'' = []"
  by (simp_all add: findall_def)

lemma sample_document:
  "findall (Element ''StateToggle'' Map.empty
      [Element ''state'' Map.empty
         [Element ''key'' [''scan-code'' \<mapsto> ''42'', ''extended'' \<mapsto> ''False''] []],
       Element ''state'' Map.empty []]) subtag =
     [Element ''state'' Map.empty
         [Element ''key'' [''scan-code'' \<mapsto> ''42'', ''extended'' \<mapsto> ''False''] []],
       Element ''state'' Map.empty []]"
  by (simp add: findall_def subtag_def)

lemma sample_document_well_formed:
  "well_formed parse_bool_text (Element ''StateToggle'' Map.empty
      [Element ''state'' Map.empty
         [Element ''key'' [''scan-code'' \<mapsto> ''42'', ''extended'' \<mapsto> ''False''] []],
       Element ''state'' Map.empty []])"
  by (simp add: well_formed_def sample_document findall_def key_ok_def parse_bool_text_def
      py_int_def strip_def is_space_def parse_unsigned_def is_digit_def)

lemma init_zero_states:
  "StateToggle.num_states action = 0 \<Longrightarrow>
     StateToggleFunctor_init kfc action =
       Inr \<lparr>press = [], needs_auto_release = [], release = [],
            num_states = 0, current_toggle = 0\<rparr>"
  by (simp add: StateToggleFunctor_init_def)

lemma process_event_no_states:
  "press self = [] \<Longrightarrow> release self = [] \<Longrightarrow>
     process_event (self, w) event val = Inl IndexError"
  by (simp add: process_event_def py_index_Nil)

subsection \<open>C1: construction from zero states\<close>

text \<open>
  C1 says that constructing the engine from an action with \<^verbatim>\<open>num_states == 0\<close> fails with
  \<^verbatim>\<open>InvalidConfiguration\<close> and that no zero-length engine is ever built. The constructor
  has no such test: on the freshly created action, which has no state, it returns the
  engine with three empty lists.
\<close>

theorem C1_counterexample:
  "StateToggleFunctor_init (curry Inr :: int \<Rightarrow> bool \<Rightarrow> py_error + KeyIdentifier)
     \<lparr>chain_states = [], StateToggle.num_states = 0\<rparr> =
   Inr \<lparr>press = [], needs_auto_release = [], release = [],
        num_states = 0, current_toggle = 0\<rparr>"
  by (simp add: StateToggleFunctor_init_def)

text \<open>
  C1, amended: constructing the engine from an action with \<^verbatim>\<open>num_states == 0\<close> does not
  fail; it returns the zero-length engine (no press macro, no release macro, no flag,
  \<^verbatim>\<open>num_states\<close> 0, cursor 0). On that engine every \<^verbatim>\<open>process_event\<close> call raises
  \<^verbatim>\<open>IndexError\<close> at the list index, before the modulo is reached. The guard against zero
  states is \<^verbatim>\<open>_is_valid\<close> of the action, which is false for an empty state list.
\<close>

theorem C1_zero_states_engine:
  assumes "StateToggle.num_states action = 0"
  shows "StateToggleFunctor_init kfc action =
           Inr \<lparr>press = [], needs_auto_release = [], release = [],
                num_states = 0, current_toggle = 0\<rparr> \<and>
         process_event
           (\<lparr>press = [], needs_auto_release = [], release = [],
             num_states = 0, current_toggle = 0\<rparr>, w) event val = Inl IndexError \<and>
         (chain_states action = [] \<longrightarrow> \<not> is_valid action)"
  using assms by (simp add: init_zero_states process_event_no_states is_valid_def)

text \<open>The amended C1 at the freshly created action and a deactivation event.\<close>

theorem C1_zero_states_engine_witness:
  "StateToggle.num_states StateToggle_init = 0 \<and>
   StateToggleFunctor_init (curry Inr :: int \<Rightarrow> bool \<Rightarrow> py_error + KeyIdentifier)
       StateToggle_init =
     Inr \<lparr>press = [], needs_auto_release = [], release = [],
          num_states = 0, current_toggle = 0\<rparr> \<and>
   process_event
     (\<lparr>press = [], needs_auto_release = [], release = [],
       num_states = 0, current_toggle = 0\<rparr>,
      \<lparr>queue = ([] :: KeyIdentifier Macro list), callbacks = ([] :: unit list)\<rparr>) ()
     \<lparr>current = False\<rparr> = Inl IndexError \<and>
   \<not> is_valid StateToggle_init"
proof -
  have z: "StateToggle.num_states StateToggle_init = 0" by (simp add: StateToggle_init_def)
  have e: "chain_states StateToggle_init = []" by (simp add: StateToggle_init_def)
  from C1_zero_states_engine [OF z, of "curry Inr"
      "\<lparr>queue = ([] :: KeyIdentifier Macro list), callbacks = ([] :: unit list)\<rparr>" "()"
      "\<lparr>current = False\<rparr>"] z e
  show ?thesis by simp
qed

subsection \<open>C2: a full cycle returns the cursor\<close>

text \<open>
  C2: for an engine built from a state list with \<open>N \<ge> 1\<close> states and any cursor value
  \<open>c\<close> of its range \<open>[0, N)\<close>, \<open>2 * N\<close> calls of \<^verbatim>\<open>process_event\<close> that alternate
  activation and deactivation, an activation first, all return, and the cursor is \<open>c\<close>
  again.
\<close>

theorem C2_alternating_cycle:
  assumes "StateToggleFunctor_init kfc action = Inr self0"
    and "1 \<le> num_states self0"
    and "0 \<le> c" and "c < num_states self0"
    and "length evs = 2 * nat (num_states self0)"
    and "alternating True (map (\<lambda>ev. current (snd ev)) evs)"
  shows "\<exists>self' w'. process_events (self0\<lparr>current_toggle := c\<rparr>, w) evs = Inr (self', w') \<and>
           current_toggle self' = c"
proof -
  from init_engine_ok [OF assms(1,2)] assms(3,4)
  have ok: "engine_ok (self0\<lparr>current_toggle := c\<rparr>)" by (simp add: engine_ok_def)
  from process_events_cycle [OF ok assms(5) assms(6), of w]
  obtain self' w' where run: "process_events (self0\<lparr>current_toggle := c\<rparr>, w) evs = Inr (self', w')"
    and ct: "current_toggle self' = (c + int (nat (num_states self0))) mod num_states self0"
    by auto
  from assms(2,3,4) have "(c + int (nat (num_states self0))) mod num_states self0 = c"
    by simp
  with run ct show ?thesis by simp
qed

text \<open>C2 at the two-state engine of the spec's scenario, the cursor starting at 1.\<close>

theorem C2_alternating_cycle_witness:
  "\<exists>self' w'.
     process_events
       (\<lparr>press = [[Press (30, False)], [Press (42, False), Press (44, False)]],
         needs_auto_release = [True, True],
         release = [[Release (30, False)], [Release (42, False), Release (44, False)]],
         num_states = 2, current_toggle = 1\<rparr>,
        \<lparr>queue = ([] :: KeyIdentifier Macro list), callbacks = ([] :: unit list)\<rparr>)
       [((), \<lparr>current = True\<rparr>), ((), \<lparr>current = False\<rparr>),
        ((), \<lparr>current = True\<rparr>), ((), \<lparr>current = False\<rparr>)] = Inr (self', w') \<and>
     current_toggle self' = 1"
  using C2_alternating_cycle [OF sample_engine, of 1
      "[((), \<lparr>current = True\<rparr>), ((), \<lparr>current = False\<rparr>),
        ((), \<lparr>current = True\<rparr>), ((), \<lparr>current = False\<rparr>)]"
      "\<lparr>queue = [], callbacks = []\<rparr>"]
  by simp

subsection \<open>C3: what one event does\<close>

text \<open>
  C3: for an engine with at least one state, as constructed and after any sequence of
  events, \<^verbatim>\<open>process_event\<close> with \<^verbatim>\<open>value.current\<close> false queues exactly
  \<^verbatim>\<open>release[current_toggle]\<close>, registers nothing, and sets the cursor to
  \<open>(current_toggle + 1) mod num_states\<close>; with \<^verbatim>\<open>value.current\<close> true it leaves the
  engine, and so the cursor, as it was. Both return \<^verbatim>\<open>True\<close>.
\<close>

theorem C3_process_event_step:
  assumes "StateToggleFunctor_init kfc action = Inr self0"
    and "1 \<le> num_states self0"
    and "process_events (self0, w0) evs = Inr (self, w)"
  shows "(\<not> current val \<longrightarrow>
            process_event (self, w) event val =
              Inr ((self\<lparr>current_toggle := (current_toggle self + 1) mod num_states self\<rparr>,
                    w\<lparr>queue := queue w @ [release self ! nat (current_toggle self)]\<rparr>), True) \<and>
            py_index (release self) (current_toggle self) =
              Inr (release self ! nat (current_toggle self))) \<and>
         (current val \<longrightarrow>
            (\<exists>w'. process_event (self, w) event val = Inr ((self, w'), True)))"
proof -
  from process_events_ok [OF init_engine_ok [OF assms(1,2)], of w0 evs] assms(3)
  have ok: "engine_ok self" by auto
  then have "py_index (release self) (current_toggle self) =
      Inr (release self ! nat (current_toggle self))"
    by (simp add: engine_ok_def py_index_in_range)
  with ok show ?thesis
    by (simp add: process_event_activate process_event_deactivate)
qed

text \<open>
  C3 at the two-state engine after one activation and one deactivation: the second
  deactivation queues the release macro of state 1 and wraps the cursor to 0.
\<close>

theorem C3_process_event_step_witness:
  "process_event
     (\<lparr>press = [[Press (30, False)], [Press (42, False), Press (44, False)]],
       needs_auto_release = [True, True],
       release = [[Release (30, False)], [Release (42, False), Release (44, False)]],
       num_states = 2, current_toggle = 1\<rparr>,
      \<lparr>queue = [[Press (30 :: int, False)], [Release (30, False)]], callbacks = [()]\<rparr>) ()
     \<lparr>current = False\<rparr> =
   Inr ((\<lparr>press = [[Press (30, False)], [Press (42, False), Press (44, False)]],
          needs_auto_release = [True, True],
          release = [[Release (30, False)], [Release (42, False), Release (44, False)]],
          num_states = 2, current_toggle = 0\<rparr>,
         \<lparr>queue = [[Press (30, False)], [Release (30, False)],
                    [Release (42, False), Release (44, False)]],
          callbacks = [()]\<rparr>), True)"
proof -
  have run: "process_events
     (\<lparr>press = [[Press (30, False)], [Press (42, False), Press (44, False)]],
       needs_auto_release = [True, True],
       release = [[Release (30, False)], [Release (42, False), Release (44, False)]],
       num_states = 2, current_toggle = 0\<rparr>,
      \<lparr>queue = ([] :: KeyIdentifier Macro list), callbacks = ([] :: unit list)\<rparr>)
     [((), \<lparr>current = True\<rparr>), ((), \<lparr>current = False\<rparr>)] =
   Inr (\<lparr>press = [[Press (30, False)], [Press (42, False), Press (44, False)]],
       needs_auto_release = [True, True],
       release = [[Release (30, False)], [Release (42, False), Release (44, False)]],
       num_states = 2, current_toggle = 1\<rparr>,
      \<lparr>queue = [[Press (30, False)], [Release (30, False)]], callbacks = [()]\<rparr>)"
    by (simp add: process_event_def py_index_def)
  from C3_process_event_step [OF sample_engine _ run, of "\<lparr>current = False\<rparr>" "()"]
  show ?thesis by simp
qed

subsection \<open>C4: a deactivation as the first event\<close>

text \<open>
  C4 says that a deactivation as the very first event advances the cursor to 1, for every
  engine with at least one state. With exactly one state the modulo wraps at once: the
  release macro of state 0 is queued and the cursor is 0 afterwards, not 1.
\<close>

theorem C4_counterexample:
  "StateToggleFunctor_init (curry Inr)
     \<lparr>chain_states = [[(30, False)]], StateToggle.num_states = 1\<rparr> =
   Inr \<lparr>press = [[Press (30, False)]], needs_auto_release = [True],
        release = [[Release (30, False)]], num_states = 1, current_toggle = 0\<rparr> \<and>
   process_event
     (\<lparr>press = [[Press (30, False)]], needs_auto_release = [True],
       release = [[Release (30, False)]], num_states = 1, current_toggle = 0\<rparr>,
      \<lparr>queue = ([] :: KeyIdentifier Macro list), callbacks = ([] :: unit list)\<rparr>) ()
     \<lparr>current = False\<rparr> =
   Inr ((\<lparr>press = [[Press (30, False)]], needs_auto_release = [True],
          release = [[Release (30, False)]], num_states = 1, current_toggle = 0\<rparr>,
         \<lparr>queue = [[Release (30, False)]], callbacks = []\<rparr>), True)"
  by (simp add: one_state_engine process_event_def py_index_def)

text \<open>
  C4, amended: for every engine with \<open>num_states \<ge> 1\<close>, a deactivation as the very first
  event queues \<^verbatim>\<open>release[0]\<close> and sets the cursor to \<open>1 mod num_states\<close>, which is 1 for
  two or more states and 0 for a single state; the branch is not guarded on a preceding
  activation.
\<close>

theorem C4_first_event_deactivation:
  assumes "StateToggleFunctor_init kfc action = Inr self0"
    and "1 \<le> num_states self0"
    and "\<not> current val"
  shows "process_event (self0, w) event val =
           Inr ((self0\<lparr>current_toggle := (if num_states self0 = 1 then 0 else 1)\<rparr>,
                 w\<lparr>queue := queue w @ [release self0 ! 0]\<rparr>), True) \<and>
         py_index (release self0) 0 = Inr (release self0 ! 0)"
proof -
  have ok: "engine_ok self0" by (rule init_engine_ok [OF assms(1,2)])
  have ct: "current_toggle self0 = 0" by (rule init_fields(6) [OF assms(1)])
  from ok have "py_index (release self0) 0 = Inr (release self0 ! 0)"
    by (simp add: engine_ok_def py_index_in_range)
  moreover from assms(2) have "1 mod num_states self0 = (if num_states self0 = 1 then 0 else 1)"
    by simp
  ultimately show ?thesis
    using process_event_deactivate [OF ok assms(3), of w event] ct by simp
qed

text \<open>The amended C4 at the two-state engine: the cursor becomes 1.\<close>

theorem C4_first_event_deactivation_witness:
  "process_event
     (\<lparr>press = [[Press (30, False)], [Press (42, False), Press (44, False)]],
       needs_auto_release = [True, True],
       release = [[Release (30, False)], [Release (42, False), Release (44, False)]],
       num_states = 2, current_toggle = 0\<rparr>,
      \<lparr>queue = ([] :: KeyIdentifier Macro list), callbacks = ([] :: unit list)\<rparr>) ()
     \<lparr>current = False\<rparr> =
   Inr ((\<lparr>press = [[Press (30, False)], [Press (42, False), Press (44, False)]],
          needs_auto_release = [True, True],
          release = [[Release (30, False)], [Release (42, False), Release (44, False)]],
          num_states = 2, current_toggle = 1\<rparr>,
         \<lparr>queue = [[Release (30, False)]], callbacks = []\<rparr>), True)"
  using C4_first_event_deactivation [OF sample_engine, of "\<lparr>current = False\<rparr>"
      "\<lparr>queue = [], callbacks = []\<rparr>" "()"]
  by simp

subsection \<open>C8: the cursor stays in range and no event raises\<close>

text \<open>
  C8: an engine constructed with \<open>num_states \<ge> 1\<close> has the cursor 0, and every sequence
  of \<^verbatim>\<open>process_event\<close> calls returns without an exception and leaves the cursor in
  \<open>[0, num_states)\<close>, \<^verbatim>\<open>num_states\<close> being unchanged.
\<close>

theorem C8_cursor_in_range:
  assumes "StateToggleFunctor_init kfc action = Inr self0"
    and "1 \<le> num_states self0"
  shows "current_toggle self0 = 0 \<and>
         (\<exists>self' w'. process_events (self0, w) evs = Inr (self', w') \<and>
            0 \<le> current_toggle self' \<and> current_toggle self' < num_states self0 \<and>
            num_states self' = num_states self0)"
proof -
  from process_events_ok [OF init_engine_ok [OF assms], of w evs]
  obtain self' w' where "process_events (self0, w) evs = Inr (self', w')"
    "engine_ok self'" "num_states self' = num_states self0"
    by blast
  with init_fields(6) [OF assms(1)] show ?thesis
    by (auto simp: engine_ok_def)
qed

text \<open>C8 at the two-state engine and four events, three of them deactivations.\<close>

theorem C8_cursor_in_range_witness:
  "\<exists>self' w'.
     process_events
       (\<lparr>press = [[Press (30, False)], [Press (42, False), Press (44, False)]],
         needs_auto_release = [True, True],
         release = [[Release (30, False)], [Release (42, False), Release (44, False)]],
         num_states = 2, current_toggle = 0\<rparr>,
        \<lparr>queue = ([] :: KeyIdentifier Macro list), callbacks = ([] :: unit list)\<rparr>)
       [((), \<lparr>current = False\<rparr>), ((), \<lparr>current = False\<rparr>),
        ((), \<lparr>current = True\<rparr>), ((), \<lparr>current = False\<rparr>)] = Inr (self', w') \<and>
     0 \<le> current_toggle self' \<and> current_toggle self' < 2"
proof -
  from C8_cursor_in_range [OF sample_engine, of
      "\<lparr>queue = [], callbacks = []\<rparr>"
      "[((), \<lparr>current = False\<rparr>), ((), \<lparr>current = False\<rparr>),
        ((), \<lparr>current = True\<rparr>), ((), \<lparr>current = False\<rparr>)]"]
  obtain self' w' where
    "process_events
       (\<lparr>press = [[Press (30, False)], [Press (42, False), Press (44, False)]],
         needs_auto_release = [True, True],
         release = [[Release (30, False)], [Release (42, False), Release (44, False)]],
         num_states = 2, current_toggle = 0\<rparr>,
        \<lparr>queue = ([] :: KeyIdentifier Macro list), callbacks = ([] :: unit list)\<rparr>)
       [((), \<lparr>current = False\<rparr>), ((), \<lparr>current = False\<rparr>),
        ((), \<lparr>current = True\<rparr>), ((), \<lparr>current = False\<rparr>)] = Inr (self', w')"
    "0 \<le> current_toggle self'" "current_toggle self' < 2"
    by auto
  then show ?thesis by blast
qed

subsection \<open>C5: a written state list reads back\<close>

text \<open>
  C5: for every state list \<open>L\<close> whose \<^verbatim>\<open>num_states\<close> is the length of its
  \<^verbatim>\<open>chain_states\<close>, \<^verbatim>\<open>_parse_xml\<close> into a freshly created action, applied to the document
  that \<^verbatim>\<open>_generate_xml\<close> builds from \<open>L\<close>, returns \<open>L\<close>: empty combinations, repeated
  scan codes and negative scan codes included. The host's boolean parser is any \<open>pb\<close>
  that reads the texts \<^verbatim>\<open>True\<close> and \<^verbatim>\<open>False\<close> as written by \<^verbatim>\<open>str\<close>. The bound
  \<^verbatim>\<open>MAX_STATES\<close> on the length plays no part, so the statement holds without it.
\<close>

theorem C5_round_trip:
  assumes "pb (Some ''True'') = Inr True" and "pb (Some ''False'') = Inr False"
    and "StateToggle.num_states L = int (length (chain_states L))"
  shows "parse_xml pb StateToggle_init (generate_xml L) = Inr L"
proof -
  have "parse_xml pb StateToggle_init (generate_xml L) =
      parse_states pb StateToggle_init (map state_node (chain_states L))"
    by (simp add: parse_xml_def generate_xml_eq findall_state_nodes)
  also have "\<dots> = Inr \<lparr>chain_states = chain_states L,
      StateToggle.num_states = int (length (chain_states L))\<rparr>"
    by (simp add: parse_states_state_nodes [OF assms(1,2)] StateToggle_init_def)
  also have "\<dots> = Inr L" using assms(3) by simp
  finally show ?thesis .
qed

text \<open>
  C5 at a list of two states, the first with a repeated scan code and a negative one, the
  second empty.
\<close>

theorem C5_round_trip_witness:
  "parse_xml parse_bool_text StateToggle_init
     (generate_xml \<lparr>chain_states = [[(30, False), (30, False), (-7, True)], []],
                    StateToggle.num_states = 2\<rparr>) =
   Inr \<lparr>chain_states = [[(30, False), (30, False), (-7, True)], []],
        StateToggle.num_states = 2\<rparr>"
  using C5_round_trip [of parse_bool_text
      "\<lparr>chain_states = [[(30, False), (30, False), (-7, True)], []],
        StateToggle.num_states = 2\<rparr>"]
  by (simp add: parse_bool_text_def)

subsection \<open>C6: a resize request outside the range\<close>

text \<open>
  C6 says that a resize to a count outside \<open>[0, MAX_STATES]\<close> is rejected and leaves the
  state list unchanged. The callback compares the target with the current count only:
  from ten states, the target \<open>MAX_STATES + 1\<close> is accepted and an eleventh state is
  appended.
\<close>

theorem C6_counterexample:
  "states_changed_cb
     \<lparr>chain_states = [[], [], [], [], [], [], [], [], [], []], StateToggle.num_states = 10\<rparr>
     (MAX_STATES + 1) =
   Inr \<lparr>chain_states = [[], [], [], [], [], [], [], [], [], [], []],
        StateToggle.num_states = 11\<rparr>"
  by (simp add: states_changed_cb_def MAX_STATES_def)

text \<open>
  C6, amended: \<^verbatim>\<open>_states_changed_cb\<close> does not check the range of the target; the range
  \<open>[0, MAX_STATES]\<close> is that of the spin box which calls it. On a state list whose
  \<^verbatim>\<open>num_states\<close> is the length of \<^verbatim>\<open>chain_states\<close>, a target above \<^verbatim>\<open>MAX_STATES\<close> is
  accepted: the list is resized to the target (empty combinations appended, or trailing
  ones dropped) and \<^verbatim>\<open>num_states\<close> is set to it. A target below 0 raises \<^verbatim>\<open>IndexError\<close>
  from \<^verbatim>\<open>pop\<close> on the emptied list, \<^verbatim>\<open>num_states\<close> keeping its old value.
\<close>

theorem C6_out_of_range_resize:
  assumes "StateToggle.num_states a = int (length (chain_states a))"
  shows "(MAX_STATES < v \<longrightarrow>
            states_changed_cb a v =
              Inr \<lparr>chain_states = take (nat v) (chain_states a) @
                                    replicate (nat v - length (chain_states a)) [],
                   StateToggle.num_states = v\<rparr>) \<and>
         (v < 0 \<longrightarrow> states_changed_cb a v = Inl (IndexError, a\<lparr>chain_states := []\<rparr>))"
  using states_changed_cb_nonneg [OF assms, of v] states_changed_cb_neg [OF assms, of v]
  by (simp add: MAX_STATES_def)

text \<open>The amended C6 at a one-state list, for the targets 12 and -1.\<close>

theorem C6_out_of_range_resize_witness:
  "states_changed_cb \<lparr>chain_states = [[(30, False)]], StateToggle.num_states = 1\<rparr> 12 =
     Inr \<lparr>chain_states = [(30, False)] # replicate 11 [], StateToggle.num_states = 12\<rparr> \<and>
   states_changed_cb \<lparr>chain_states = [[(30, False)]], StateToggle.num_states = 1\<rparr> (- 1) =
     Inl (IndexError, \<lparr>chain_states = [], StateToggle.num_states = 1\<rparr>)"
  using C6_out_of_range_resize [of "\<lparr>chain_states = [[(30, False)]], StateToggle.num_states = 1\<rparr>" 12]
    C6_out_of_range_resize [of "\<lparr>chain_states = [[(30, False)]], StateToggle.num_states = 1\<rparr>" "- 1"]
  by (simp add: MAX_STATES_def)

subsection \<open>C7: growing and shrinking inside the range\<close>

text \<open>
  C7: on a state list with \<open>k\<close> states (\<^verbatim>\<open>num_states\<close> being the length of
  \<^verbatim>\<open>chain_states\<close>), a resize to \<open>k + m\<close> inside the range appends exactly \<open>m\<close> empty
  combinations after the existing ones, which stay as they are; a resize to \<open>k - m\<close>
  inside the range removes exactly the last \<open>m\<close> combinations and keeps the others; in
  both cases \<^verbatim>\<open>num_states\<close> is the new count.
\<close>

theorem C7_resize_in_range:
  assumes "StateToggle.num_states a = int (length (chain_states a))"
  shows "(StateToggle.num_states a + int m \<le> MAX_STATES \<longrightarrow>
            states_changed_cb a (StateToggle.num_states a + int m) =
              Inr \<lparr>chain_states = chain_states a @ replicate m [],
                   StateToggle.num_states = StateToggle.num_states a + int m\<rparr>) \<and>
         (m \<le> length (chain_states a) \<and> StateToggle.num_states a - int m \<le> MAX_STATES \<longrightarrow>
            states_changed_cb a (StateToggle.num_states a - int m) =
              Inr \<lparr>chain_states = take (length (chain_states a) - m) (chain_states a),
                   StateToggle.num_states = StateToggle.num_states a - int m\<rparr>)"
proof -
  have grow: "states_changed_cb a (StateToggle.num_states a + int m) =
      Inr \<lparr>chain_states = chain_states a @ replicate m [],
           StateToggle.num_states = StateToggle.num_states a + int m\<rparr>"
    using states_changed_cb_nonneg [OF assms, of "StateToggle.num_states a + int m"] assms
    by (simp add: nat_add_distrib)
  have shrink: "states_changed_cb a (StateToggle.num_states a - int m) =
      Inr \<lparr>chain_states = take (length (chain_states a) - m) (chain_states a),
           StateToggle.num_states = StateToggle.num_states a - int m\<rparr>"
    if "m \<le> length (chain_states a)"
  proof -
    from that assms have "nat (StateToggle.num_states a - int m) = length (chain_states a) - m"
      and "0 \<le> StateToggle.num_states a - int m" by simp_all
    with states_changed_cb_nonneg [OF assms, of "StateToggle.num_states a - int m"]
    show ?thesis by simp
  qed
  from grow shrink show ?thesis by simp
qed

text \<open>C7 at the two-state list of the spec's scenario: growing by two, shrinking by one.\<close>

theorem C7_resize_in_range_witness:
  "states_changed_cb
     \<lparr>chain_states = [[(30, False)], [(42, False), (44, False)]], StateToggle.num_states = 2\<rparr> 4 =
     Inr \<lparr>chain_states = [[(30, False)], [(42, False), (44, False)], [], []],
          StateToggle.num_states = 4\<rparr> \<and>
   states_changed_cb
     \<lparr>chain_states = [[(30, False)], [(42, False), (44, False)]], StateToggle.num_states = 2\<rparr> 1 =
     Inr \<lparr>chain_states = [[(30, False)]], StateToggle.num_states = 1\<rparr>"
  using C7_resize_in_range
    [of "\<lparr>chain_states = [[(30, False)], [(42, False), (44, False)]], StateToggle.num_states = 2\<rparr>" 2]
    C7_resize_in_range
    [of "\<lparr>chain_states = [[(30, False)], [(42, False), (44, False)]], StateToggle.num_states = 2\<rparr>" 1]
  by (simp add: MAX_STATES_def numeral_2_eq_2)

subsection \<open>C9: parsing has no bound on the number of states\<close>

text \<open>
  C9: for every well-formed document, \<^verbatim>\<open>_parse_xml\<close> returns, having appended one key
  combination per state element, in document order, each with its keys in document order,
  and having added their number to \<^verbatim>\<open>num_states\<close>. There is no test against
  \<^verbatim>\<open>MAX_STATES\<close>: a document with more than \<^verbatim>\<open>MAX_STATES\<close> state elements, parsed into a
  freshly created action, gives a state list longer than \<^verbatim>\<open>MAX_STATES\<close>.
\<close>

theorem C9_parse_unbounded:
  assumes "well_formed pb node"
  shows "parse_xml pb self node =
           Inr (self\<lparr>chain_states :=
                       chain_states self @ map (decode_state pb) (findall node subtag),
                     StateToggle.num_states :=
                       StateToggle.num_states self + int (length (findall node subtag))\<rparr>) \<and>
         (MAX_STATES < int (length (findall node subtag)) \<longrightarrow>
            (\<exists>self'. parse_xml pb StateToggle_init node = Inr self' \<and>
               MAX_STATES < int (length (chain_states self')) \<and>
               MAX_STATES < StateToggle.num_states self'))"
proof -
  have eq: "parse_xml pb s node =
      Inr (s\<lparr>chain_states := chain_states s @ map (decode_state pb) (findall node subtag),
             StateToggle.num_states :=
               StateToggle.num_states s + int (length (findall node subtag))\<rparr>)" for s
    using assms unfolding parse_xml_def well_formed_def by (rule parse_states_ok)
  show ?thesis
    by (simp add: eq StateToggle_init_def)
qed

text \<open>
  C9 at a document with eleven state elements: the first with the keys 42 and 30 in this
  order, nine with the key 7, the last empty.
\<close>

theorem C9_parse_unbounded_witness:
  "parse_xml parse_bool_text StateToggle_init
     (Element ''StateToggle'' Map.empty
        (Element ''state'' Map.empty
           [Element ''key'' [''scan-code'' \<mapsto> ''42'', ''extended'' \<mapsto> ''False''] [],
            Element ''key'' [''scan-code'' \<mapsto> ''30'', ''extended'' \<mapsto> ''True''] []] #
         replicate 9 (Element ''state'' Map.empty
           [Element ''key'' [''scan-code'' \<mapsto> ''7'', ''extended'' \<mapsto> ''True''] []]) @
         [Element ''state'' Map.empty []])) =
   Inr \<lparr>chain_states = [(42, False), (30, True)] # replicate 9 [(7, True)] @ [[]],
        StateToggle.num_states = 11\<rparr>"
proof -
  have wf: "well_formed parse_bool_text
     (Element ''StateToggle'' Map.empty
        (Element ''state'' Map.empty
           [Element ''key'' [''scan-code'' \<mapsto> ''42'', ''extended'' \<mapsto> ''False''] [],
            Element ''key'' [''scan-code'' \<mapsto> ''30'', ''extended'' \<mapsto> ''True''] []] #
         replicate 9 (Element ''state'' Map.empty
           [Element ''key'' [''scan-code'' \<mapsto> ''7'', ''extended'' \<mapsto> ''True''] []]) @
         [Element ''state'' Map.empty []]))"
    unfolding well_formed_def eleven_states
    by (simp add: sample_states sample_keys key_ok_def list_all_iff)
  from C9_parse_unbounded [OF wf, of StateToggle_init]
  show ?thesis
    unfolding eleven_states
    by (simp add: decode_state_def decode_key_def sample_states sample_keys
        StateToggle_init_def)
qed

subsection \<open>C10: parsing adds to the states already there\<close>

text \<open>
  C10: \<^verbatim>\<open>_parse_xml\<close> on an action that holds \<open>k\<close> states and a document with \<open>s\<close> state
  elements yields a state list of \<open>k + s\<close> states whose first \<open>k\<close> are the ones it held,
  and \<^verbatim>\<open>num_states\<close> increased by \<open>s\<close>. It returns for every well-formed document, and
  also when it raises the states held before are still the first \<open>k\<close> of the list: the
  list is never cleared.
\<close>

theorem C10_parse_accumulates:
  "(case parse_xml pb self node of
      Inl (e, self') \<Rightarrow> take (length (chain_states self)) (chain_states self') = chain_states self
    | Inr self' \<Rightarrow>
        length (chain_states self') =
          length (chain_states self) + length (findall node subtag) \<and>
        take (length (chain_states self)) (chain_states self') = chain_states self \<and>
        StateToggle.num_states self' =
          StateToggle.num_states self + int (length (findall node subtag))) \<and>
   (well_formed pb node \<longrightarrow> \<not> isl (parse_xml pb self node))"
proof -
  have "well_formed pb node \<longrightarrow> \<not> isl (parse_xml pb self node)"
    by (simp add: parse_xml_def well_formed_def parse_states_ok)
  moreover have "case parse_xml pb self node of
      Inl (e, self') \<Rightarrow> take (length (chain_states self)) (chain_states self') = chain_states self
    | Inr self' \<Rightarrow>
        length (chain_states self') =
          length (chain_states self) + length (findall node subtag) \<and>
        take (length (chain_states self)) (chain_states self') = chain_states self \<and>
        StateToggle.num_states self' =
          StateToggle.num_states self + int (length (findall node subtag))"
    using parse_states_keeps [where pb = pb and self = self and sts = "findall node subtag"]
    unfolding parse_xml_def by (auto split: sum.splits)
  ultimately show ?thesis by simp
qed

text \<open>C10 at an action holding one state and a document with two state elements.\<close>

theorem C10_parse_accumulates_witness:
  "\<exists>self'. parse_xml parse_bool_text
       \<lparr>chain_states = [[(30, False)]], StateToggle.num_states = 1\<rparr>
       (Element ''StateToggle'' Map.empty
         [Element ''state'' Map.empty
            [Element ''key'' [''scan-code'' \<mapsto> ''42'', ''extended'' \<mapsto> ''False''] []],
          Element ''state'' Map.empty []]) = Inr self' \<and>
     length (chain_states self') = 3 \<and>
     take 1 (chain_states self') = [[(30, False)]] \<and>
     StateToggle.num_states self' = 3"
  using C10_parse_accumulates [where pb = parse_bool_text
      and self = "\<lparr>chain_states = [[(30, False)]], StateToggle.num_states = 1\<rparr>"
      and node = "Element ''StateToggle'' Map.empty
         [Element ''state'' Map.empty
            [Element ''key'' [''scan-code'' \<mapsto> ''42'', ''extended'' \<mapsto> ''False''] []],
          Element ''state'' Map.empty []]"]
    sample_document_well_formed
  by (auto simp: sample_document split: sum.splits)

end
